theory Spec2Isabelle
  imports Complex_Main
begin

section \<open>Arrays, masked arrays and the store\<close>

text \<open>
  The development embeds \<^verbatim>\<open>prepare_data\<close> of \<^verbatim>\<open>py/desiutil/plots.py\<close> together with
  the numpy primitives it calls.

  Array elements are idealised as real numbers: every finite float is one, and comparison,
  minimum, maximum and clamping are exact on floats. NaN and the infinities are not
  represented.

  An n-dimensional array is its shape and its elements in row-major order. Arrays are
  objects with identity, so they live in a store: a numeric array is either a plain
  \<^verbatim>\<open>ndarray\<close> or a \<^verbatim>\<open>MaskedArray\<close>, which owns its values and refers to a
  boolean array, its mask, by address. A masked array always carries a full mask array
  here (numpy's \<^verbatim>\<open>nomask\<close> shorthand is not represented).
\<close>

type_synonym addr = nat

record 'a ndarray =
  shape :: "nat list"
  flat :: "'a list"

datatype array = Plain "real ndarray" | Masked "real ndarray" addr

record store =
  arrays :: "addr \<Rightarrow> array"
  masks :: "addr \<Rightarrow> bool ndarray"
  next_array :: addr
  next_mask :: addr

text \<open>\<^verbatim>\<open>numpy.ma.getdata\<close>: the values of an array, masked or not.\<close>

fun getdata :: "array \<Rightarrow> real ndarray" where
  "getdata (Plain d) = d"
| "getdata (Masked d m) = d"

text \<open>\<^verbatim>\<open>numpy.ma.getmaskarray\<close>: the mask a masked array carries; all false for a plain array.\<close>

fun getmaskarray :: "store \<Rightarrow> array \<Rightarrow> bool list" where
  "getmaskarray s (Plain d) = replicate (length (flat d)) False"
| "getmaskarray s (Masked d m) = flat (masks s m)"

definition alloc_mask :: "store \<Rightarrow> bool ndarray \<Rightarrow> store \<times> addr" where
  "alloc_mask s b =
     (s\<lparr>masks := (masks s)(next_mask s := b), next_mask := Suc (next_mask s)\<rparr>, next_mask s)"

definition alloc_array :: "store \<Rightarrow> array \<Rightarrow> store \<times> addr" where
  "alloc_array s a =
     (s\<lparr>arrays := (arrays s)(next_array s := a), next_array := Suc (next_array s)\<rparr>,
      next_array s)"

text \<open>\<^verbatim>\<open>np.zeros_like(data, dtype=bool)\<close>: a new all-false boolean array of the shape of the data.\<close>

definition zeros_like :: "store \<Rightarrow> real ndarray \<Rightarrow> store \<times> addr" where
  "zeros_like s d = alloc_mask s \<lparr>shape = shape d, flat = replicate (length (flat d)) False\<rparr>"

section \<open>Errors\<close>

text \<open>
  Every exception the call can raise is a value. \<open>InvalidMaskShape\<close> is the
  \<^verbatim>\<open>ValueError('Invalid mask shape.')\<close> of the function itself, \<open>FloatParse\<close> the
  \<^verbatim>\<open>ValueError\<close> of \<^verbatim>\<open>float\<close> on a string that is no number, \<open>ZeroSizeReduction\<close>
  the \<^verbatim>\<open>ValueError\<close> of \<^verbatim>\<open>np.min\<close> and \<^verbatim>\<open>np.max\<close> on an array without elements,
  \<open>PercentileOutOfRange\<close> the \<^verbatim>\<open>ValueError\<close> of \<^verbatim>\<open>np.percentile\<close> for a
  percentile outside [0, 100], and \<open>EmptyPercentile\<close> the error of \<^verbatim>\<open>np.percentile\<close>
  on an array without elements (an \<^verbatim>\<open>IndexError\<close>, in older releases a
  \<^verbatim>\<open>ValueError\<close>; never a NaN result).

  \<open>OutsideModel\<close> is no exception: it marks the two places where the call goes on with a
  value this embedding cannot represent (a bound that is not a finite number, and the
  masked constant that \<^verbatim>\<open>np.min\<close> and \<^verbatim>\<open>np.max\<close> return when every selected element
  is hidden by the mask of the data itself). In both places the call has not raised yet;
  the theorems below that name an exception never name this one, and the two that only
  say that a call raises (claims C8 and C10) are about calls that raise in a later step
  anyway.
\<close>

datatype error =
    InvalidMaskShape
  | FloatParse
  | ZeroSizeReduction
  | PercentileOutOfRange
  | EmptyPercentile
  | OutsideModel

section \<open>Python's \<^verbatim>\<open>float\<close> on a string\<close>

text \<open>
  \<^verbatim>\<open>float(s)\<close> strips white space and reads an optional sign, then either a decimal
  literal (digits with an optional fraction and an optional exponent) or one of the words
  \<^verbatim>\<open>inf\<close>, \<^verbatim>\<open>infinity\<close>, \<^verbatim>\<open>nan\<close> in any case; anything else raises
  \<^verbatim>\<open>ValueError\<close>. The value of a decimal literal is taken exactly, without rounding to
  the nearest float. Digit-group underscores (accepted from Python 3.6 on) are not read.
\<close>

datatype pyfloat = Finite real | NonFinite | Malformed

definition is_space :: "char \<Rightarrow> bool" where
  "is_space c = (c \<in> set [CHR '' '', CHR 0x09, CHR 0x0A, CHR 0x0B, CHR 0x0C, CHR 0x0D])"

definition strip :: "string \<Rightarrow> string" where
  "strip s = rev (dropWhile is_space (rev (dropWhile is_space s)))"

definition is_digit :: "char \<Rightarrow> bool" where
  "is_digit c = (c \<in> set ''0123456789'')"

text \<open>The value of a digit is its place among the ten digits.\<close>

definition digit_val :: "char \<Rightarrow> nat" where
  "digit_val c = length (takeWhile (\<lambda>d. d \<noteq> c) ''0123456789'')"

definition digits_val :: "string \<Rightarrow> nat" where
  "digits_val ds = foldl (\<lambda>a c. 10 * a + digit_val c) 0 ds"

definition lower :: "char \<Rightarrow> char" where
  "lower c =
     (if c = CHR ''I'' then CHR ''i'' else if c = CHR ''N'' then CHR ''n''
      else if c = CHR ''F'' then CHR ''f'' else if c = CHR ''T'' then CHR ''t''
      else if c = CHR ''Y'' then CHR ''y'' else if c = CHR ''A'' then CHR ''a'' else c)"

definition is_exp_mark :: "char \<Rightarrow> bool" where
  "is_exp_mark c = (c = CHR ''e'' \<or> c = CHR ''E'')"

text \<open>The mantissa: digits, optionally a point and more digits, with a digit somewhere.\<close>

definition mantissa :: "string \<Rightarrow> real option" where
  "mantissa m =
     (let ip = takeWhile is_digit m; r = dropWhile is_digit m
      in case r of
           [] \<Rightarrow> (if ip = [] then None else Some (real (digits_val ip)))
         | c # fp \<Rightarrow>
             (if c = CHR ''.'' \<and> list_all is_digit fp \<and> (ip \<noteq> [] \<or> fp \<noteq> [])
              then Some (real (digits_val ip) + real (digits_val fp) / 10 ^ length fp)
              else None))"

text \<open>The exponent part, empty or \<^verbatim>\<open>e\<close>, an optional sign and digits: the factor it stands for.\<close>

definition exponent :: "string \<Rightarrow> real option" where
  "exponent x =
     (case x of
        [] \<Rightarrow> Some 1
      | e # r \<Rightarrow>
          (let neg = (r \<noteq> [] \<and> hd r = CHR ''-'');
               ds = (if r \<noteq> [] \<and> (hd r = CHR ''-'' \<or> hd r = CHR ''+'') then tl r else r)
           in if ds \<noteq> [] \<and> list_all is_digit ds
              then Some (if neg then 1 / 10 ^ digits_val ds else 10 ^ digits_val ds)
              else None))"

definition unsigned_float :: "string \<Rightarrow> pyfloat" where
  "unsigned_float u =
     (if map lower u \<in> set [''inf'', ''infinity'', ''nan''] then NonFinite
      else case (mantissa (takeWhile (\<lambda>c. \<not> is_exp_mark c) u),
                 exponent (dropWhile (\<lambda>c. \<not> is_exp_mark c) u)) of
             (Some m, Some f) \<Rightarrow> Finite (m * f)
           | _ \<Rightarrow> Malformed)"

definition py_float :: "string \<Rightarrow> pyfloat" where
  "py_float s =
     (case strip s of
        [] \<Rightarrow> Malformed
      | c # u \<Rightarrow>
          if c = CHR ''-'' then
            (case unsigned_float u of Finite v \<Rightarrow> Finite (- v) | r \<Rightarrow> r)
          else if c = CHR ''+'' then unsigned_float u
          else unsigned_float (c # u))"

section \<open>The numpy primitives\<close>

text \<open>
  \<^verbatim>\<open>data[~mask]\<close>: the elements at the positions where the mask is false, in order. When
  the data is a masked array the selection is one too, so each selected value comes with
  the bit of the data's own mask at its position.
\<close>

definition unmasked :: "store \<Rightarrow> array \<Rightarrow> bool list \<Rightarrow> (real \<times> bool) list" where
  "unmasked s a mk =
     map fst (filter (\<lambda>(p, b). \<not> b) (zip (zip (flat (getdata a)) (getmaskarray s a)) mk))"

text \<open>
  \<^verbatim>\<open>np.min\<close> and \<^verbatim>\<open>np.max\<close> of a selection: \<^verbatim>\<open>ValueError\<close> on a selection without
  elements; otherwise the reduction over the elements its own mask does not hide. When it
  hides them all the result is the masked constant.
\<close>

definition visible :: "(real \<times> bool) list \<Rightarrow> real list" where
  "visible sel = map fst (filter (\<lambda>(x, b). \<not> b) sel)"

definition np_min :: "(real \<times> bool) list \<Rightarrow> error + real" where
  "np_min sel =
     (if sel = [] then Inl ZeroSizeReduction
      else case visible sel of [] \<Rightarrow> Inl OutsideModel | v # vs \<Rightarrow> Inr (fold min vs v))"

definition np_max :: "(real \<times> bool) list \<Rightarrow> error + real" where
  "np_max sel =
     (if sel = [] then Inl ZeroSizeReduction
      else case visible sel of [] \<Rightarrow> Inl OutsideModel | v # vs \<Rightarrow> Inr (fold max vs v))"

text \<open>
  \<^verbatim>\<open>np.percentile(a, q)\<close> with the default linear interpolation, over all the values of
  the selection (the function does not look at a mask): with the values sorted and \<open>n\<close>
  of them, the result lies at the fractional index \<open>q / 100 * (n - 1)\<close>, between its two
  neighbours.
\<close>

definition np_percentile :: "(real \<times> bool) list \<Rightarrow> real \<Rightarrow> error + real" where
  "np_percentile sel q =
     (if q < 0 \<or> 100 < q then Inl PercentileOutOfRange
      else if sel = [] then Inl EmptyPercentile
      else
        let vs = sort (map fst sel);
            n = length vs;
            idx = q / 100 * real (n - 1);
            below = nat \<lfloor>idx\<rfloor>;
            above = min (Suc below) (n - 1);
            frac = idx - real below
        in Inr (vs ! below + frac * (vs ! above - vs ! below)))"

text \<open>
  \<^verbatim>\<open>np.clip(a, lo, hi)\<close>, elementwise \<^verbatim>\<open>minimum(hi, maximum(a, lo))\<close>, gives a new array
  of the same shape. On a masked array it clamps the values under the mask as well and
  gives a masked array with a copy of the mask. (What \<^verbatim>\<open>np.clip\<close> gives for \<open>lo > hi\<close>
  has changed between releases of numpy; the theorems below about clamped values are
  about bounds with \<open>lo \<le> hi\<close>.)
\<close>

definition clip_value :: "real \<Rightarrow> real \<Rightarrow> real \<Rightarrow> real" where
  "clip_value lo hi x = min hi (max x lo)"

definition clip_nd :: "real ndarray \<Rightarrow> real \<Rightarrow> real \<Rightarrow> real ndarray" where
  "clip_nd d lo hi = \<lparr>shape = shape d, flat = map (clip_value lo hi) (flat d)\<rparr>"

definition np_clip :: "store \<Rightarrow> array \<Rightarrow> real \<Rightarrow> real \<Rightarrow> store \<times> array" where
  "np_clip s a lo hi =
     (case a of
        Plain d \<Rightarrow> (s, Plain (clip_nd d lo hi))
      | Masked d m \<Rightarrow>
          (let (s1, c) = alloc_mask s (masks s m) in (s1, Masked (clip_nd d lo hi) c)))"

text \<open>
  \<^verbatim>\<open>numpy.ma.MaskedArray(x, mask=mask)\<close> with its defaults \<^verbatim>\<open>copy=False\<close> and
  \<^verbatim>\<open>keep_mask=True\<close>: over a plain array the new masked array refers to the very mask
  array it was given; over a masked array its mask is a new array, the elementwise
  disjunction of the given mask and the mask of \<open>x\<close>.
\<close>

definition logical_or :: "bool ndarray \<Rightarrow> bool ndarray \<Rightarrow> bool ndarray" where
  "logical_or a b = \<lparr>shape = shape a, flat = map2 (\<or>) (flat a) (flat b)\<rparr>"

definition MaskedArray :: "store \<Rightarrow> array \<Rightarrow> addr \<Rightarrow> store \<times> addr" where
  "MaskedArray s x msk =
     (case x of
        Plain d \<Rightarrow> alloc_array s (Masked d msk)
      | Masked d c \<Rightarrow>
          (let (s1, k) = alloc_mask s (logical_or (masks s msk) (masks s c))
           in alloc_array s1 (Masked d k)))"

text \<open>
  \<^verbatim>\<open>clipped.mask[flags] = True\<close>: the mask array the masked array refers to is written
  in place, at the positions where the flag is true. The flags have the shape of the data,
  which in a well-formed call is the shape of the mask.
\<close>

definition set_mask_where :: "store \<Rightarrow> addr \<Rightarrow> bool list \<Rightarrow> store" where
  "set_mask_where s r flags =
     (case arrays s r of
        Plain d \<Rightarrow> s
      | Masked d k \<Rightarrow>
          s\<lparr>masks := (masks s)(k := (masks s k)\<lparr>flat := map2 (\<or>) (flat (masks s k)) flags\<rparr>)\<rparr>)"

section \<open>\<^verbatim>\<open>prepare_data\<close>\<close>

text \<open>A clip argument is \<^verbatim>\<open>None\<close>, a number or a string.\<close>

datatype clip = Num real | Str string

definition startswith :: "string \<Rightarrow> string \<Rightarrow> bool" where
  "startswith s p = (take (length p) s = p)"

definition endswith :: "string \<Rightarrow> string \<Rightarrow> bool" where
  "endswith s p = (length p \<le> length s \<and> drop (length s - length p) s = p)"

text \<open>The inner function \<^verbatim>\<open>get_clip\<close>, closed over \<^verbatim>\<open>unmasked_data\<close>.\<close>

definition to_float :: "string \<Rightarrow> error + real" where
  "to_float s =
     (case py_float s of
        Finite v \<Rightarrow> Inr v
      | NonFinite \<Rightarrow> Inl OutsideModel
      | Malformed \<Rightarrow> Inl FloatParse)"

definition get_clip :: "(real \<times> bool) list \<Rightarrow> clip \<Rightarrow> error + (real \<times> bool)" where
  "get_clip unmasked_data v =
     (case v of
        Num x \<Rightarrow> Inr (x, False)
      | Str s \<Rightarrow>
          (let clip_mask = startswith s ''!'';
               s1 = (if clip_mask then drop 1 s else s)
           in if endswith s1 ''%'' then
                (case to_float (butlast s1) of
                   Inl e \<Rightarrow> Inl e
                 | Inr q \<Rightarrow>
                     (case np_percentile unmasked_data q of
                        Inl e \<Rightarrow> Inl e
                      | Inr x \<Rightarrow> Inr (x, clip_mask)))
              else
                (case to_float s1 of
                   Inl e \<Rightarrow> Inl e
                 | Inr x \<Rightarrow> Inr (x, clip_mask))))"

definition resolve_lo :: "(real \<times> bool) list \<Rightarrow> clip option \<Rightarrow> error + (real \<times> bool)" where
  "resolve_lo unmasked_data clip_lo =
     (case clip_lo of
        None \<Rightarrow> (case np_min unmasked_data of Inl e \<Rightarrow> Inl e | Inr x \<Rightarrow> Inr (x, False))
      | Some v \<Rightarrow> get_clip unmasked_data v)"

definition resolve_hi :: "(real \<times> bool) list \<Rightarrow> clip option \<Rightarrow> error + (real \<times> bool)" where
  "resolve_hi unmasked_data clip_hi =
     (case clip_hi of
        None \<Rightarrow> (case np_max unmasked_data of Inl e \<Rightarrow> Inl e | Inr x \<Rightarrow> Inr (x, False))
      | Some v \<Rightarrow> get_clip unmasked_data v)"

text \<open>
  The last lines of \<^verbatim>\<open>prepare_data\<close>, from \<^verbatim>\<open>clipped = numpy.ma.MaskedArray(...)\<close>
  on, with the bounds resolved: the data is clamped into a new masked array over the mask
  at \<open>msk\<close>, and the positions beyond a flagged bound are masked in place. The
  comparisons \<^verbatim>\<open>data < clip_lo\<close> and \<^verbatim>\<open>data > clip_hi\<close> are made on the original
  values, for a masked array on the values under its mask as well (the positions they add
  there are masked in the result already).
\<close>

definition apply_clip ::
  "store \<Rightarrow> addr \<Rightarrow> addr \<Rightarrow> real \<Rightarrow> bool \<Rightarrow> real \<Rightarrow> bool \<Rightarrow> store \<times> addr" where
  "apply_clip s data msk lo mask_lo hi mask_hi =
     (let a = arrays s data;
          (s1, x) = np_clip s a lo hi;
          (s2, clipped) = MaskedArray s1 x msk;
          s3 = (if mask_lo
                then set_mask_where s2 clipped (map (\<lambda>v. v < lo) (flat (getdata a)))
                else s2);
          s4 = (if mask_hi
                then set_mask_where s3 clipped (map (\<lambda>v. hi < v) (flat (getdata a)))
                else s3)
      in (s4, clipped))"

text \<open>
  The body of \<^verbatim>\<open>prepare_data\<close> from \<^verbatim>\<open>unmasked_data = data[~mask]\<close> on, with \<open>msk\<close>
  the address of the mask array the first part settled on.
\<close>

definition clip_data ::
  "store \<Rightarrow> addr \<Rightarrow> addr \<Rightarrow> clip option \<Rightarrow> clip option \<Rightarrow> error + (store \<times> addr)" where
  "clip_data s data msk clip_lo clip_hi =
     (let unmasked_data = unmasked s (arrays s data) (flat (masks s msk))
      in case resolve_lo unmasked_data clip_lo of
           Inl e \<Rightarrow> Inl e
         | Inr (lo, mask_lo) \<Rightarrow>
             (case resolve_hi unmasked_data clip_hi of
                Inl e \<Rightarrow> Inl e
              | Inr (hi, mask_hi) \<Rightarrow> Inr (apply_clip s data msk lo mask_lo hi mask_hi)))"

definition prepare_data ::
  "store \<Rightarrow> addr \<Rightarrow> addr option \<Rightarrow> clip option \<Rightarrow> clip option \<Rightarrow> error + (store \<times> addr)" where
  "prepare_data s data msk clip_lo clip_hi =
     (case msk of
        None \<Rightarrow>
          (case arrays s data of
             Masked d m \<Rightarrow>
               if clip_lo = None \<and> clip_hi = None then Inr (s, data)
               else clip_data s data m clip_lo clip_hi
           | Plain d \<Rightarrow>
               (let (s1, m) = zeros_like s d in clip_data s1 data m clip_lo clip_hi))
      | Some m \<Rightarrow>
          if shape (masks s m) \<noteq> shape (getdata (arrays s data)) then Inl InvalidMaskShape
          else clip_data s data m clip_lo clip_hi)"

section \<open>Reading a call\<close>

text \<open>
  The mask the first part of \<^verbatim>\<open>prepare_data\<close> settles on (the variable \<^verbatim>\<open>mask\<close>
  when \<^verbatim>\<open>unmasked_data\<close> is computed): the mask argument when there is one, else the
  mask of a masked input, else all false. \<open>selection\<close> is \<^verbatim>\<open>unmasked_data\<close>.
\<close>

definition effective_mask :: "store \<Rightarrow> addr \<Rightarrow> addr option \<Rightarrow> bool list" where
  "effective_mask s data msk =
     (case msk of Some m \<Rightarrow> flat (masks s m) | None \<Rightarrow> getmaskarray s (arrays s data))"

definition selection :: "store \<Rightarrow> addr \<Rightarrow> addr option \<Rightarrow> (real \<times> bool) list" where
  "selection s data msk = unmasked s (arrays s data) (effective_mask s data msk)"

text \<open>
  The mask the result starts from, before any flagged bound adds to it: the effective
  mask, joined with the mask of the data itself when a masked array comes with a mask
  argument.
\<close>

definition carried_mask :: "store \<Rightarrow> addr \<Rightarrow> addr option \<Rightarrow> bool list" where
  "carried_mask s data msk =
     (case (arrays s data, msk) of
        (Masked d k, Some m) \<Rightarrow> map2 (\<or>) (flat (masks s m)) (flat (masks s k))
      | _ \<Rightarrow> effective_mask s data msk)"

text \<open>The values and the mask of the masked array a call returns.\<close>

definition out_values :: "error + store \<times> addr \<Rightarrow> real list option" where
  "out_values res =
     (case res of Inl e \<Rightarrow> None | Inr (s, r) \<Rightarrow> Some (flat (getdata (arrays s r))))"

definition out_mask :: "error + store \<times> addr \<Rightarrow> bool list option" where
  "out_mask res =
     (case res of Inl e \<Rightarrow> None | Inr (s, r) \<Rightarrow> Some (getmaskarray s (arrays s r)))"




text \<open>
  The string a clip argument is parsed from: the argument without its leading \<^verbatim>\<open>!\<close>
  and its trailing \<^verbatim>\<open>%\<close>, when it has them.
\<close>

definition body :: "string \<Rightarrow> string" where
  "body s =
     (let s1 = (if startswith s ''!'' then drop 1 s else s)
      in if endswith s1 ''%'' then butlast s1 else s1)"


definition percentile_spec :: "clip option \<Rightarrow> bool" where
  "percentile_spec c =
     (case c of
        Some (Str s) \<Rightarrow> endswith (if startswith s ''!'' then drop 1 s else s) ''%''
      | _ \<Rightarrow> False)"


text \<open>
  A clip argument is readable when it is absent, a number, or a string whose body is a
  finite number that, for a percentile, lies in [0, 100].
\<close>

definition readable :: "clip option \<Rightarrow> bool" where
  "readable c =
     (case c of
        Some (Str s) \<Rightarrow>
          (case py_float (body s) of
             Finite q \<Rightarrow> \<not> percentile_spec c \<or> (0 \<le> q \<and> q \<le> 100)
           | _ \<Rightarrow> False)
      | _ \<Rightarrow> True)"

text \<open>
  The first part of \<^verbatim>\<open>prepare_data\<close>, when it neither raises nor returns: the store
  and the address of the mask array the rest of the body works with.
\<close>

definition mask_store :: "store \<Rightarrow> addr \<Rightarrow> addr option \<Rightarrow> store \<times> addr" where
  "mask_store s data msk =
     (case msk of
        Some m \<Rightarrow> (s, m)
      | None \<Rightarrow> (case arrays s data of Masked d k \<Rightarrow> (s, k) | Plain d \<Rightarrow> zeros_like s d))"

text \<open>The call takes the identity fast path: a masked input, no mask argument, no bound.\<close>

definition fast_path :: "store \<Rightarrow> addr \<Rightarrow> addr option \<Rightarrow> clip option \<Rightarrow> clip option \<Rightarrow> bool" where
  "fast_path s data msk clip_lo clip_hi =
     (msk = None \<and> clip_lo = None \<and> clip_hi = None \<and>
      (case arrays s data of Masked d k \<Rightarrow> True | Plain d \<Rightarrow> False))"

text \<open>A mask argument, when there is one, has the shape of the data.\<close>

definition mask_fits :: "store \<Rightarrow> addr \<Rightarrow> addr option \<Rightarrow> bool" where
  "mask_fits s data msk =
     (case msk of
        None \<Rightarrow> True
      | Some m \<Rightarrow> shape (masks s m) = shape (getdata (arrays s data)))"

section \<open>Example stores\<close>

text \<open>
  One store for the examples: the plain array of the docstring at address 0, two masked
  arrays at 1 and 2, and six boolean arrays.
\<close>

definition no_array :: array where
  "no_array = Plain \<lparr>shape = [0], flat = []\<rparr>"

definition no_mask :: "bool ndarray" where
  "no_mask = \<lparr>shape = [0], flat = []\<rparr>"

definition ex_store :: store where
  "ex_store =
     \<lparr>arrays = (\<lambda>_. no_array)
        (0 := Plain \<lparr>shape = [5], flat = [0, 1, 2, 3, 4]\<rparr>,
         1 := Masked \<lparr>shape = [5], flat = [0, 1, 2, 3, 4]\<rparr> 2,
         2 := Masked \<lparr>shape = [3], flat = [0, 1, 2]\<rparr> 4),
      masks = (\<lambda>_. no_mask)
        (0 := \<lparr>shape = [5], flat = [False, False, False, False, False]\<rparr>,
         1 := \<lparr>shape = [4], flat = [False, False, False, False]\<rparr>,
         2 := \<lparr>shape = [5], flat = [False, False, False, False, True]\<rparr>,
         3 := \<lparr>shape = [3], flat = [False, False, True]\<rparr>,
         4 := \<lparr>shape = [3], flat = [True, False, False]\<rparr>,
         5 := \<lparr>shape = [5], flat = [True, True, True, True, True]\<rparr>),
      next_array = 3,
      next_mask = 6\<rparr>"

section \<open>What the last lines do to the store\<close>


lemmas apply_defs = apply_clip_def np_clip_def MaskedArray_def alloc_array_def alloc_mask_def
  set_mask_where_def logical_or_def Let_def

lemmas eval_defs = prepare_data_def clip_data_def apply_defs zeros_like_def unmasked_def
  resolve_lo_def resolve_hi_def get_clip_def startswith_def endswith_def to_float_def
  py_float_def strip_def is_space_def unsigned_float_def lower_def mantissa_def exponent_def
  is_exp_mark_def is_digit_def digits_val_def digit_val_def np_percentile_def np_min_def
  np_max_def visible_def clip_nd_def clip_value_def ex_store_def no_array_def no_mask_def
  out_values_def out_mask_def effective_mask_def selection_def carried_mask_def

lemma apply_clip_addr: "snd (apply_clip s data m lo ml hi mh) = next_array s"
  by (simp add: apply_defs split: array.splits prod.splits)

lemma apply_clip_next_array:
  "next_array (fst (apply_clip s data m lo ml hi mh)) = Suc (next_array s)"
  by (simp add: apply_defs split: array.splits prod.splits)

lemma apply_clip_next_mask:
  "next_mask (fst (apply_clip s data m lo ml hi mh)) =
     (case arrays s data of Plain d \<Rightarrow> next_mask s | Masked d k \<Rightarrow> Suc (Suc (next_mask s)))"
  by (simp add: apply_defs split: array.splits prod.splits)

lemma apply_clip_arrays_frame:
  "a \<noteq> next_array s \<Longrightarrow> arrays (fst (apply_clip s data m lo ml hi mh)) a = arrays s a"
  by (simp add: apply_defs split: array.splits prod.splits)

lemma apply_clip_array:
  "arrays (fst (apply_clip s data m lo ml hi mh)) (next_array s) =
     Masked (clip_nd (getdata (arrays s data)) lo hi)
       (case arrays s data of Plain d \<Rightarrow> m | Masked d k \<Rightarrow> Suc (next_mask s))"
  by (simp add: apply_defs split: array.splits prod.splits)



lemma apply_clip_masks_frame_masked:
  "arrays s data = Masked d k \<Longrightarrow> j < next_mask s \<Longrightarrow>
   masks (fst (apply_clip s data m lo ml hi mh)) j = masks s j"
  by (simp add: apply_defs split: array.splits prod.splits)

lemma apply_clip_masks_frame_plain:
  "arrays s data = Plain d \<Longrightarrow> j \<noteq> m \<Longrightarrow>
   masks (fst (apply_clip s data m lo ml hi mh)) j = masks s j"
  by (simp add: apply_defs split: array.splits prod.splits)

lemma clip_data_Inr:
  assumes "clip_data s data m cl ch = Inr (s', r)"
  obtains lo ml hi mh where
    "resolve_lo (unmasked s (arrays s data) (flat (masks s m))) cl = Inr (lo, ml)"
    "resolve_hi (unmasked s (arrays s data) (flat (masks s m))) ch = Inr (hi, mh)"
    "apply_clip s data m lo ml hi mh = (s', r)"
  using assms by (auto simp: clip_data_def Let_def split: sum.splits prod.splits)

lemma shape_clip_nd: "shape (clip_nd d lo hi) = shape d"
  by (simp add: clip_nd_def)

lemma clip_data_shape:
  assumes "clip_data s data m cl ch = Inr (s', r)"
  shows "shape (getdata (arrays s' r)) = shape (getdata (arrays s data))"
proof -
  from assms obtain lo ml hi mh where ap: "apply_clip s data m lo ml hi mh = (s', r)"
    by (rule clip_data_Inr)
  have r: "r = next_array s"
    using apply_clip_addr [of s data m lo ml hi mh] ap by simp
  have "arrays s' r = Masked (clip_nd (getdata (arrays s data)) lo hi)
       (case arrays s data of Plain d \<Rightarrow> m | Masked d k \<Rightarrow> Suc (next_mask s))"
    using apply_clip_array [of s data m lo ml hi mh] ap r by simp
  then show ?thesis by (simp add: shape_clip_nd)
qed

section \<open>The identity fast path\<close>

text \<open>
  Claim C1. When the input is already a masked array and the call has no mask argument
  and no clip bound, the call returns the input object itself: the same address, in an
  unchanged store.
\<close>

theorem fast_path_identity:
  "arrays s data = Masked d m \<Longrightarrow> prepare_data s data None None None = Inr (s, data)"
  by (simp add: prepare_data_def)

theorem fast_path_identity_witness:
  "arrays ex_store 1 = Masked \<lparr>shape = [5], flat = [0, 1, 2, 3, 4]\<rparr> 2 \<and>
   prepare_data ex_store 1 None None None = Inr (ex_store, 1)"
proof -
  have a: "arrays ex_store 1 = Masked \<lparr>shape = [5], flat = [0, 1, 2, 3, 4]\<rparr> 2"
    by (simp add: ex_store_def)
  from fast_path_identity [OF a] a show ?thesis by simp
qed

section \<open>A mask of the wrong shape\<close>

text \<open>
  Claim C7. A call with a mask argument whose shape differs from the shape of the data
  raises the shape error, whatever the clip bounds are, and so returns no array.
\<close>

theorem mask_shape_mismatch:
  "shape (masks s m) \<noteq> shape (getdata (arrays s data)) \<Longrightarrow>
   prepare_data s data (Some m) clip_lo clip_hi = Inl InvalidMaskShape"
  by (simp add: prepare_data_def)

theorem mask_shape_mismatch_witness:
  "shape (masks ex_store 1) = [4] \<and> shape (getdata (arrays ex_store 0)) = [5] \<and>
   prepare_data ex_store 0 (Some 1) (Some (Str ''25%'')) None = Inl InvalidMaskShape"
proof -
  have a: "shape (masks ex_store 1) \<noteq> shape (getdata (arrays ex_store 0))"
    by (simp add: ex_store_def)
  show ?thesis
    using mask_shape_mismatch [OF a, of "Some (Str ''25%'')" None]
    by (simp add: ex_store_def)
qed

section \<open>The shape of the result\<close>

text \<open>
  Claim C9. Whenever a call returns, the masked array it returns has the shape of the
  input data.
\<close>

theorem output_shape:
  assumes "prepare_data s data msk clip_lo clip_hi = Inr (s', r)"
  shows "shape (getdata (arrays s' r)) = shape (getdata (arrays s data))"
proof (cases msk)
  case (Some m)
  with assms have "clip_data s data m clip_lo clip_hi = Inr (s', r)"
    by (simp add: prepare_data_def split: if_splits)
  then show ?thesis by (rule clip_data_shape)
next
  case None
  show ?thesis
  proof (cases "arrays s data")
    case (Masked d k)
    show ?thesis
    proof (cases "clip_lo = None \<and> clip_hi = None")
      case True
      with assms None Masked show ?thesis by (simp add: prepare_data_def)
    next
      case False
      with assms None Masked have "clip_data s data k clip_lo clip_hi = Inr (s', r)"
        by (auto simp add: prepare_data_def)
      then show ?thesis by (rule clip_data_shape)
    qed
  next
    case (Plain d)
    obtain s1 m where z: "zeros_like s d = (s1, m)" by (cases "zeros_like s d")
    then have a1: "arrays s1 = arrays s" by (auto simp: zeros_like_def alloc_mask_def)
    from assms None Plain z have "clip_data s1 data m clip_lo clip_hi = Inr (s', r)"
      by (simp add: prepare_data_def)
    then have "shape (getdata (arrays s' r)) = shape (getdata (arrays s1 data))"
      by (rule clip_data_shape)
    with a1 show ?thesis by simp
  qed
qed

theorem output_shape_witness:
  "shape (getdata (arrays ex_store 2)) = [3] \<and>
   (case prepare_data ex_store 2 (Some 3) (Some (Num 1)) None of
      Inl e \<Rightarrow> False
    | Inr (s', r) \<Rightarrow> shape (getdata (arrays s' r)) = [3])"
proof -
  have "\<exists>s' r. prepare_data ex_store 2 (Some 3) (Some (Num 1)) None = Inr (s', r)"
    by (simp add: eval_defs)
  then obtain s' r where
    eq: "prepare_data ex_store 2 (Some 3) (Some (Num 1)) None = Inr (s', r)" by blast
  have sh: "shape (getdata (arrays ex_store 2)) = [3]" by (simp add: ex_store_def)
  from output_shape [OF eq] sh eq show ?thesis by simp
qed

section \<open>The mask of the result\<close>







lemma clip_value_range:
  "lo \<le> hi \<Longrightarrow> lo \<le> clip_value lo hi x \<and> clip_value lo hi x \<le> hi"
  by (auto simp: clip_value_def)

section \<open>Numeric bounds\<close>




section \<open>Bounds that also mask\<close>




section \<open>Applying the call to its own output\<close>



lemma clip_value_idem: "clip_value lo hi (clip_value lo hi x) = clip_value lo hi x"
  by (auto simp: clip_value_def)

lemma clip_nd_idem: "clip_nd (clip_nd d lo hi) lo hi = clip_nd d lo hi"
  by (simp add: clip_nd_def clip_value_idem)













section \<open>The call past its first part\<close>

lemma prepare_data_unfold:
  assumes "mask_fits s data msk" and "\<not> fast_path s data msk clip_lo clip_hi"
  shows "prepare_data s data msk clip_lo clip_hi =
     (case resolve_lo (selection s data msk) clip_lo of
        Inl e \<Rightarrow> Inl e
      | Inr (lo, mask_lo) \<Rightarrow>
          (case resolve_hi (selection s data msk) clip_hi of
             Inl e \<Rightarrow> Inl e
           | Inr (hi, mask_hi) \<Rightarrow>
               Inr (apply_clip (fst (mask_store s data msk)) data (snd (mask_store s data msk))
                      lo mask_lo hi mask_hi)))"
proof -
  obtain s0 m0 where ms: "mask_store s data msk = (s0, m0)" by (cases "mask_store s data msk")
  have pd: "prepare_data s data msk clip_lo clip_hi = clip_data s0 data m0 clip_lo clip_hi"
    using assms ms
    by (auto simp: prepare_data_def mask_store_def mask_fits_def fast_path_def
        split: option.splits array.splits)
  have sel: "unmasked s0 (arrays s0 data) (flat (masks s0 m0)) = selection s data msk"
    using ms
    by (auto simp: mask_store_def selection_def effective_mask_def zeros_like_def alloc_mask_def
        unmasked_def split: option.splits array.splits)
  show ?thesis
    unfolding pd by (simp add: clip_data_def sel ms Let_def split: sum.splits prod.splits)
qed

section \<open>Strings that are no numbers\<close>








section \<open>Bounds read from strings\<close>

lemma np_percentile_empty:
  "np_percentile [] q = (if q < 0 \<or> 100 < q then Inl PercentileOutOfRange else Inl EmptyPercentile)"
  by (simp add: np_percentile_def)

lemma get_clip_Str:
  "get_clip sel (Str s) =
     (case to_float (body s) of
        Inl e \<Rightarrow> Inl e
      | Inr q \<Rightarrow>
          if percentile_spec (Some (Str s))
          then (case np_percentile sel q of
                  Inl e \<Rightarrow> Inl e
                | Inr x \<Rightarrow> Inr (x, startswith s ''!''))
          else Inr (q, startswith s ''!''))"
  by (simp add: get_clip_def body_def percentile_spec_def Let_def split: sum.splits)

lemma percentile_spec_Num: "\<not> percentile_spec (Some (Num x))"
  by (simp add: percentile_spec_def)

lemma readable_Str:
  "readable (Some (Str s)) \<Longrightarrow>
   \<exists>q. to_float (body s) = Inr q \<and> (percentile_spec (Some (Str s)) \<longrightarrow> 0 \<le> q \<and> q \<le> 100)"
  by (auto simp: readable_def to_float_def split: pyfloat.splits)

lemma get_clip_empty_percentile:
  assumes "percentile_spec (Some c)"
  shows "\<exists>e. get_clip [] c = Inl e"
    and "readable (Some c) \<Longrightarrow> get_clip [] c = Inl EmptyPercentile"
proof -
  from assms obtain s where c: "c = Str s" by (cases c) (auto simp: percentile_spec_Num)
  show "\<exists>e. get_clip [] c = Inl e"
    using assms unfolding c get_clip_Str
    by (auto simp: np_percentile_empty split: sum.splits)
  show "get_clip [] c = Inl EmptyPercentile" if "readable (Some c)"
    using assms readable_Str [of s] that unfolding c get_clip_Str
    by (auto simp: np_percentile_empty)
qed

lemma get_clip_readable_absolute:
  assumes "readable (Some c)" and "\<not> percentile_spec (Some c)"
  shows "\<exists>b. get_clip sel c = Inr b"
proof (cases c)
  case (Num x)
  then show ?thesis by (auto simp: get_clip_def)
next
  case (Str s)
  then show ?thesis
    using assms readable_Str [of s] unfolding Str get_clip_Str by auto
qed

lemma resolve_lo_empty:
  assumes "c = None \<or> percentile_spec c"
  shows "\<exists>e. resolve_lo [] c = Inl e"
    and "readable c \<Longrightarrow> resolve_lo [] c = Inl ZeroSizeReduction \<or> resolve_lo [] c = Inl EmptyPercentile"
  using assms get_clip_empty_percentile
  by (cases c; auto simp: resolve_lo_def np_min_def percentile_spec_def)+

lemma resolve_hi_empty:
  assumes "c = None \<or> percentile_spec c"
  shows "\<exists>e. resolve_hi [] c = Inl e"
    and "readable c \<Longrightarrow> resolve_hi [] c = Inl ZeroSizeReduction \<or> resolve_hi [] c = Inl EmptyPercentile"
  using assms get_clip_empty_percentile
  by (cases c; auto simp: resolve_hi_def np_max_def percentile_spec_def)+


section \<open>Percentile bounds\<close>







section \<open>An empty selection\<close>

text \<open>
  Claim C10. When the effective mask leaves no element unmasked and the call has to
  resolve a bound from the data (a bound is absent, or is a percentile specifier, and the
  call does not take the identity fast path, which resolves nothing), the call raises and
  returns no array. When moreover the mask argument fits and the bounds are readable, the
  error is the one of the empty reduction: that of \<^verbatim>\<open>np.min\<close> or \<^verbatim>\<open>np.max\<close>, or
  that of \<^verbatim>\<open>np.percentile\<close>.
\<close>

theorem empty_selection_raises:
  assumes emp: "selection s data msk = []"
    and need: "clip_lo = None \<or> clip_hi = None \<or> percentile_spec clip_lo \<or> percentile_spec clip_hi"
    and nf: "\<not> fast_path s data msk clip_lo clip_hi"
  shows "(\<exists>e. prepare_data s data msk clip_lo clip_hi = Inl e) \<and>
     (mask_fits s data msk \<and> readable clip_lo \<and> readable clip_hi \<longrightarrow>
        prepare_data s data msk clip_lo clip_hi = Inl ZeroSizeReduction \<or>
        prepare_data s data msk clip_lo clip_hi = Inl EmptyPercentile)"
proof (cases "mask_fits s data msk")
  case False
  then show ?thesis by (auto simp: mask_fits_def prepare_data_def split: option.splits)
next
  case True
  note u = prepare_data_unfold [OF True nf, unfolded emp]
  show ?thesis
  proof (cases "clip_lo = None \<or> percentile_spec clip_lo")
    case True
    from resolve_lo_empty [OF True] show ?thesis
      unfolding u by auto
  next
    case False
    with need have hi: "clip_hi = None \<or> percentile_spec clip_hi" by auto
    show ?thesis
    proof (cases "resolve_lo [] clip_lo")
      case (Inl e)
      moreover have "readable clip_lo \<Longrightarrow> \<exists>b. resolve_lo [] clip_lo = Inr b"
        using False get_clip_readable_absolute [of _ "[]"]
        by (cases clip_lo) (auto simp: resolve_lo_def)
      ultimately show ?thesis unfolding u by auto
    next
      case (Inr b)
      from resolve_hi_empty [OF hi] show ?thesis
        unfolding u Inr by (cases b) auto
    qed
  qed
qed

theorem empty_selection_raises_witness:
  "selection ex_store 0 (Some 5) = [] \<and>
   prepare_data ex_store 0 (Some 5) None None = Inl ZeroSizeReduction \<and>
   prepare_data ex_store 0 (Some 5) (Some (Str ''25%'')) (Some (Num 3)) = Inl EmptyPercentile"
proof -
  have emp: "selection ex_store 0 (Some 5) = []" by (simp add: eval_defs)
  have nf: "\<not> fast_path ex_store 0 (Some 5) cl ch" for cl ch by (simp add: fast_path_def)
  have fits: "mask_fits ex_store 0 (Some 5)" by (simp add: mask_fits_def ex_store_def)
  have r0: "readable None" by (simp add: readable_def)
  have r1: "readable (Some (Str ''25%''))"
    by (simp add: readable_def body_def percentile_spec_def eval_defs)
  have r2: "readable (Some (Num 3))" by (simp add: readable_def)
  have ps: "percentile_spec (Some (Str ''25%''))"
    by (simp add: percentile_spec_def startswith_def endswith_def)
  have n1: "prepare_data ex_store 0 (Some 5) None None \<noteq> Inl EmptyPercentile"
    by (simp add: eval_defs)
  have n2: "prepare_data ex_store 0 (Some 5) (Some (Str ''25%'')) (Some (Num 3)) \<noteq> Inl ZeroSizeReduction"
    by (simp add: eval_defs)
  have a: "None = None \<or> None = None \<or> percentile_spec None \<or> percentile_spec None" by simp
  have b: "Some (Str ''25%'') = None \<or> Some (Num 3) = None \<or>
      percentile_spec (Some (Str ''25%'')) \<or> percentile_spec (Some (Num 3))" using ps by simp
  have p1: "prepare_data ex_store 0 (Some 5) None None = Inl ZeroSizeReduction"
    using empty_selection_raises [OF emp a nf] fits r0 n1 by blast
  have p2: "prepare_data ex_store 0 (Some 5) (Some (Str ''25%'')) (Some (Num 3)) = Inl EmptyPercentile"
    using empty_selection_raises [OF emp b nf] fits r1 r2 n2 by blast
  from emp p1 p2 show ?thesis by simp
qed

section \<open>What a call leaves untouched\<close>

lemma mask_store_arrays: "arrays (fst (mask_store s data msk)) = arrays s"
  by (auto simp: mask_store_def zeros_like_def alloc_mask_def split: option.splits array.splits)

lemma mask_store_next_array: "next_array (fst (mask_store s data msk)) = next_array s"
  by (auto simp: mask_store_def zeros_like_def alloc_mask_def split: option.splits array.splits)

lemma prepare_data_Inr:
  assumes "prepare_data s data msk clip_lo clip_hi = Inr (s', r)"
    and "\<not> fast_path s data msk clip_lo clip_hi"
  obtains lo ml hi mh where
    "apply_clip (fst (mask_store s data msk)) data (snd (mask_store s data msk)) lo ml hi mh
       = (s', r)"
proof -
  have fits: "mask_fits s data msk"
    using assms(1) by (auto simp: prepare_data_def mask_fits_def split: option.splits if_splits)
  show ?thesis
    using assms(1) that unfolding prepare_data_unfold [OF fits assms(2)]
    by (auto split: sum.splits prod.splits)
qed

lemma input_arrays_unchanged:
  assumes "prepare_data s data msk clip_lo clip_hi = Inr (s', r)" and "a < next_array s"
  shows "arrays s' a = arrays s a"
proof (cases "fast_path s data msk clip_lo clip_hi")
  case True
  then show ?thesis using assms
    by (auto simp: fast_path_def prepare_data_def split: array.splits)
next
  case False
  from assms(1) False obtain lo ml hi mh where
    ap: "apply_clip (fst (mask_store s data msk)) data (snd (mask_store s data msk)) lo ml hi mh
       = (s', r)"
    by (rule prepare_data_Inr)
  have "arrays s' a = arrays (fst (mask_store s data msk)) a"
    using apply_clip_arrays_frame [of a "fst (mask_store s data msk)" data
        "snd (mask_store s data msk)" lo ml hi mh] assms(2) ap
    by (simp add: mask_store_next_array)
  then show ?thesis by (simp add: mask_store_arrays)
qed

lemma result_is_new:
  assumes "prepare_data s data msk clip_lo clip_hi = Inr (s', r)"
    and "\<not> fast_path s data msk clip_lo clip_hi"
  shows "r = next_array s"
proof -
  from assms obtain lo ml hi mh where
    ap: "apply_clip (fst (mask_store s data msk)) data (snd (mask_store s data msk)) lo ml hi mh
       = (s', r)"
    by (rule prepare_data_Inr)
  show ?thesis
    using apply_clip_addr [of "fst (mask_store s data msk)" data
        "snd (mask_store s data msk)" lo ml hi mh] ap
    by (simp add: mask_store_next_array)
qed

lemma masks_unchanged_elsewhere:
  assumes "prepare_data s data msk clip_lo clip_hi = Inr (s', r)"
    and "j < next_mask s"
    and "\<not> (\<exists>d. arrays s data = Plain d \<and> msk = Some j)"
  shows "masks s' j = masks s j"
proof (cases "fast_path s data msk clip_lo clip_hi")
  case True
  then show ?thesis using assms
    by (auto simp: fast_path_def prepare_data_def split: array.splits)
next
  case False
  from assms(1) False obtain lo ml hi mh where
    ap: "apply_clip (fst (mask_store s data msk)) data (snd (mask_store s data msk)) lo ml hi mh
       = (s', r)"
    by (rule prepare_data_Inr)
  show ?thesis
  proof (cases "arrays s data")
    case (Masked d k)
    then have ms: "fst (mask_store s data msk) = s"
      by (auto simp: mask_store_def split: option.splits)
    show ?thesis
      using apply_clip_masks_frame_masked [OF Masked assms(2), of "snd (mask_store s data msk)" lo ml hi mh] ap
      by (simp add: ms)
  next
    case (Plain d)
    show ?thesis
    proof (cases msk)
      case (Some m)
      then have ms: "mask_store s data msk = (s, m)" by (simp add: mask_store_def)
      have "j \<noteq> m" using assms(3) Plain Some by auto
      then show ?thesis
        using apply_clip_masks_frame_plain [OF Plain, of j m lo ml hi mh] ap by (simp add: ms)
    next
      case None
      obtain s0 where ms: "mask_store s data msk = (s0, next_mask s)"
        and s0: "arrays s0 data = Plain d" "masks s0 j = masks s j"
        using Plain None assms(2)
        by (auto simp: mask_store_def zeros_like_def alloc_mask_def)
      have "j \<noteq> next_mask s" using assms(2) by simp
      then show ?thesis
        using apply_clip_masks_frame_plain [OF s0(1), of j "next_mask s" lo ml hi mh] ap s0(2)
        by (simp add: ms)
    qed
  qed
qed

text \<open>
  Claim C6. A call never changes an array that was there before it, the result of a
  call off the fast path is a new object, and a boolean array that was there before is
  unchanged unless it is the mask argument of a call on a plain array (the three lemmas
  above). In that one case the masked array returned refers to the caller's own mask
  array, and a flagged bound writes into it: on the data 0, 1, 2, 3, 4 with the all-false
  mask at address 0 and the bound \<^verbatim>\<open>!25%\<close>, the result refers to the mask at address
  0, and the caller's mask has become true at the first position.
\<close>

theorem caller_mask_overwritten:
  "arrays ex_store 0 = Plain \<lparr>shape = [5], flat = [0, 1, 2, 3, 4]\<rparr> \<and>
   flat (masks ex_store 0) = [False, False, False, False, False] \<and>
   (case prepare_data ex_store 0 (Some 0) (Some (Str ''!25%'')) None of
      Inl e \<Rightarrow> False
    | Inr (s', r) \<Rightarrow>
        arrays s' r = Masked \<lparr>shape = [5], flat = [1, 1, 2, 3, 4]\<rparr> 0 \<and>
        flat (masks s' 0) = [True, False, False, False, False] \<and>
        arrays s' 0 = arrays ex_store 0)"
  by (simp add: eval_defs)

end
